theory Spec2Isabelle
  imports Complex_Main
begin

section \<open>Python numerics used by create-mac-icon.py\<close>

text \<open>
  The script computes its geometry with expressions such as \<^verbatim>\<open>int(size * 0.45)\<close>:
  an integer is converted to a binary64 float, multiplied by a float literal, and the
  product is truncated towards zero. A float is modelled by the rational number it
  denotes; \<open>double_of_rat\<close> rounds a rational to the nearest binary64 value (ties to
  even, 53 significant bits, least exponent \<open>-1074\<close>). Overflow to infinity is not
  modelled: the script's values stay below \<open>2 ^ 11\<close>.
\<close>

function bit_length :: "int \<Rightarrow> nat" where
  "bit_length n = (if n \<le> 0 then 0 else Suc (bit_length (n div 2)))"
  by pat_completeness auto
termination
  by (relation "measure nat") auto

declare bit_length.simps [simp del]

definition pow2 :: "int \<Rightarrow> rat" where
  "pow2 e = (if 0 \<le> e then 2 ^ nat e else 1 / 2 ^ nat (- e))"

definition round_half_even :: "rat \<Rightarrow> int" where
  "round_half_even q =
     (let f = \<lfloor>q\<rfloor>; r = q - of_int f
      in if r < 1 / 2 then f
         else if 1 / 2 < r then f + 1
         else if even f then f else f + 1)"

definition binary_exponent :: "rat \<Rightarrow> int" where
  \<comment> \<open>for \<open>0 < q\<close>, the \<open>k\<close> with \<open>2 ^ (k - 1) \<le> q < 2 ^ k\<close>\<close>
  "binary_exponent q =
     (let (a, b) = quotient_of q;
          d = int (bit_length a) - int (bit_length b)
      in if q < pow2 d then d else d + 1)"

definition double_of_rat :: "rat \<Rightarrow> rat" where
  "double_of_rat q =
     (if q = 0 then 0
      else let e = max (binary_exponent \<bar>q\<bar> - 53) (- 1074);
               m = round_half_even (\<bar>q\<bar> / pow2 e)
           in sgn q * of_int m * pow2 e)"

definition float_mul :: "rat \<Rightarrow> rat \<Rightarrow> rat" where
  \<comment> \<open>\<^verbatim>\<open>x * y\<close> on two floats\<close>
  "float_mul x y = double_of_rat (x * y)"

definition float_of_int :: "int \<Rightarrow> rat" where
  \<comment> \<open>the implicit \<^verbatim>\<open>float(i)\<close> of a mixed product\<close>
  "float_of_int i = double_of_rat (of_int i)"

definition py_int :: "rat \<Rightarrow> int" where
  \<comment> \<open>\<^verbatim>\<open>int(x)\<close> on a float: truncation towards zero\<close>
  "py_int x = (if 0 \<le> x then \<lfloor>x\<rfloor> else \<lceil>x\<rceil>)"

definition int_times_float :: "int \<Rightarrow> rat \<Rightarrow> int" where
  \<comment> \<open>\<^verbatim>\<open>int(i * c)\<close> for an integer \<open>i\<close> and the float literal written \<open>c\<close>\<close>
  "int_times_float i c = py_int (float_mul (float_of_int i) (double_of_rat c))"

section \<open>Geometry of the badge (\<^verbatim>\<open>create_icon\<close>, lines 12 to 29)\<close>

definition size_px :: int where
  "size_px = 1024"

definition center :: int where
  "center = size_px div 2"

definition radius :: int where
  "radius = int_times_float size_px (45 / 100)"

definition inner_radius :: int where
  "inner_radius = int_times_float radius (8 / 10)"

definition font_size :: int where
  "font_size = int_times_float size_px (4 / 10)"

type_synonym box = "int \<times> int \<times> int \<times> int"

definition outer_box :: box where
  "outer_box = (center - radius, center - radius, center + radius, center + radius)"

definition inner_box :: box where
  "inner_box =
     (center - inner_radius, center - inner_radius,
      center + inner_radius, center + inner_radius)"

section \<open>Strings and paths\<close>

function digits :: "int \<Rightarrow> string" where
  "digits n =
     (if n < 10 then [char_of (48 + n)]
      else digits (n div 10) @ [char_of (48 + n mod 10)])"
  by pat_completeness auto
termination
  by (relation "measure nat") auto

declare digits.simps [simp del]

definition py_str :: "int \<Rightarrow> string" where
  \<comment> \<open>\<^verbatim>\<open>str(n)\<close>, as the f-string formats an integer\<close>
  "py_str n = (if n < 0 then ''-'' @ digits (- n) else digits n)"

definition os_path_join :: "string \<Rightarrow> string \<Rightarrow> string" where
  \<comment> \<open>\<^verbatim>\<open>os.path.join(a, b)\<close> of posixpath, for two components\<close>
  "os_path_join a b =
     (if b \<noteq> [] \<and> hd b = CHR ''/'' then b
      else if a = [] \<or> last a = CHR ''/'' then a @ b
      else a @ ''/'' @ b)"

definition os_path_dirname :: "string \<Rightarrow> string" where
  \<comment> \<open>\<^verbatim>\<open>os.path.dirname(p)\<close> of posixpath: the part up to the last slash, without its
      trailing slashes unless it consists of slashes only\<close>
  "os_path_dirname p =
     (let head = rev (dropWhile (\<lambda>c. c \<noteq> CHR ''/'') (rev p))
      in if head \<noteq> [] \<and> head \<noteq> replicate (length head) (CHR ''/'')
         then rev (dropWhile (\<lambda>c. c = CHR ''/'') (rev head))
         else head)"

definition build_dir_of :: "string \<Rightarrow> string" where
  \<comment> \<open>line 55; the argument is the value of \<^verbatim>\<open>os.path.abspath(__file__)\<close>\<close>
  "build_dir_of abs_file = os_path_dirname abs_file"

section \<open>The imaging library and the world the script runs in\<close>

text \<open>
  The script calls Pillow for everything it draws and writes. Pillow is not part of the
  repository, so its rasterisers, its font loader and its PNG codec are parameters
  (the record \<open>pil\<close>); what is fixed here is only what the calls do to the objects
  involved: \<^verbatim>\<open>Image.new\<close> and \<^verbatim>\<open>Image.resize\<close> allocate a new image of the
  requested size, \<^verbatim>\<open>ImageDraw\<close> calls change the pixels of the image they were
  created for, \<^verbatim>\<open>Image.save\<close> writes the encoded image to a path or raises.
  Images live in an object store and are referred to by their index, so that sharing and
  in-place mutation are visible.
\<close>

type_synonym rgba = "nat \<times> nat \<times> nat \<times> nat"

record image =
  mode :: string
  width :: int
  height :: int
  pixels :: "int \<times> int \<Rightarrow> rgba"

datatype error = OSError string

record 'f pil =
  truetype :: "string \<Rightarrow> int \<Rightarrow> 'f option"
  load_default :: "'f"
  getbbox :: "'f \<Rightarrow> string \<Rightarrow> box"
  ellipse_px :: "box \<Rightarrow> rgba \<Rightarrow> image \<Rightarrow> int \<times> int \<Rightarrow> rgba"
  text_px :: "int \<times> int \<Rightarrow> string \<Rightarrow> rgba \<Rightarrow> 'f \<Rightarrow> image \<Rightarrow> int \<times> int \<Rightarrow> rgba"
  lanczos_px :: "image \<Rightarrow> int \<times> int \<Rightarrow> int \<times> int \<Rightarrow> rgba"
  png_encode :: "image \<Rightarrow> nat list"
  png_decode :: "nat list \<Rightarrow> image option"

record world =
  objs :: "image list"
  files :: "string \<rightharpoonup> nat list"
  can_write :: "string \<Rightarrow> bool"
  stdout :: "string list"

type_synonym 'a result = "error \<times> world + 'a"

definition world_of :: "world result \<Rightarrow> world" where
  \<comment> \<open>the world a call leaves behind, whether it returned or raised\<close>
  "world_of r = (case r of Inl (e, w) \<Rightarrow> w | Inr w \<Rightarrow> w)"

definition print :: "string \<Rightarrow> world \<Rightarrow> world" where
  "print s w = w\<lparr>stdout := stdout w @ [s]\<rparr>"

definition Image_new :: "string \<Rightarrow> int \<times> int \<Rightarrow> rgba \<Rightarrow> world \<Rightarrow> nat \<times> world" where
  "Image_new m sz color w =
     (length (objs w),
      w\<lparr>objs := objs w @
        [\<lparr>mode = m, width = fst sz, height = snd sz, pixels = (\<lambda>_. color)\<rparr>]\<rparr>)"

definition draw_ellipse :: "'f pil \<Rightarrow> nat \<Rightarrow> box \<Rightarrow> rgba \<Rightarrow> world \<Rightarrow> world" where
  "draw_ellipse L img b fill w =
     w\<lparr>objs := (objs w)[img := (objs w ! img)\<lparr>pixels := ellipse_px L b fill (objs w ! img)\<rparr>]\<rparr>"

definition draw_textbbox :: "'f pil \<Rightarrow> int \<times> int \<Rightarrow> string \<Rightarrow> 'f \<Rightarrow> box" where
  \<comment> \<open>the box the text covers when drawn at \<open>xy\<close>: the font's box, moved by \<open>xy\<close>\<close>
  "draw_textbbox L xy text font =
     (case getbbox L font text of
        (l, t, r, b) \<Rightarrow> (fst xy + l, snd xy + t, fst xy + r, snd xy + b))"

definition draw_text ::
  "'f pil \<Rightarrow> nat \<Rightarrow> int \<times> int \<Rightarrow> string \<Rightarrow> rgba \<Rightarrow> 'f \<Rightarrow> world \<Rightarrow> world" where
  "draw_text L img xy text fill font w =
     w\<lparr>objs := (objs w)[img :=
        (objs w ! img)\<lparr>pixels := text_px L xy text fill font (objs w ! img)\<rparr>]\<rparr>"

definition resized :: "'f pil \<Rightarrow> image \<Rightarrow> int \<times> int \<Rightarrow> image" where
  "resized L src sz =
     \<lparr>mode = mode src, width = fst sz, height = snd sz, pixels = lanczos_px L src sz\<rparr>"

definition Image_resize :: "'f pil \<Rightarrow> nat \<Rightarrow> int \<times> int \<Rightarrow> world \<Rightarrow> nat \<times> world" where
  "Image_resize L img sz w =
     (length (objs w), w\<lparr>objs := objs w @ [resized L (objs w ! img) sz]\<rparr>)"

definition Image_save :: "'f pil \<Rightarrow> nat \<Rightarrow> string \<Rightarrow> world \<Rightarrow> world result" where
  "Image_save L img path w =
     (if can_write w path
      then Inr (w\<lparr>files := (files w)(path \<mapsto> png_encode L (objs w ! img))\<rparr>)
      else Inl (OSError path, w))"

section \<open>\<^verbatim>\<open>create_icon\<close>\<close>

definition select_font :: "'f pil \<Rightarrow> 'f" where
  \<comment> \<open>lines 32 to 37: any failure of \<^verbatim>\<open>truetype\<close> is caught\<close>
  "select_font L =
     (case truetype L ''arial.ttf'' font_size of
        Some font \<Rightarrow> font
      | None \<Rightarrow> load_default L)"

definition text_anchor :: "box \<Rightarrow> int \<times> int" where
  \<comment> \<open>lines 42 to 46\<close>
  "text_anchor bbox =
     (case bbox of (x0, y0, x1, y1) \<Rightarrow>
        let text_width = x1 - x0;
            text_height = y1 - y0;
            text_x = center - text_width div 2;
            text_y = center - text_height div 2
        in (text_x, text_y))"

definition create_icon :: "'f pil \<Rightarrow> world \<Rightarrow> nat \<times> world" where
  "create_icon L w0 =
     (let (img, w1) = Image_new ''RGBA'' (size_px, size_px) (0, 0, 0, 0) w0;
          w2 = draw_ellipse L img outer_box (41, 128, 185, 255) w1;
          w3 = draw_ellipse L img inner_box (52, 152, 219, 255) w2;
          font = select_font L;
          text = ''C'';
          bbox = draw_textbbox L (0, 0) text font;
          w4 = draw_text L img (text_anchor bbox) text (255, 255, 255, 255) font w3
      in (img, w4))"

section \<open>\<^verbatim>\<open>save_icon_sizes\<close> and the script body\<close>

definition sizes :: "int list" where
  "sizes = [16, 32, 64, 128, 256, 512, 1024]"

definition icon_filename :: "int \<Rightarrow> string" where
  "icon_filename s = ''icon_'' @ py_str s @ ''x'' @ py_str s @ ''.png''"

fun save_loop :: "'f pil \<Rightarrow> string \<Rightarrow> nat \<Rightarrow> int list \<Rightarrow> world \<Rightarrow> world result" where
  "save_loop L build_dir base_img [] w = Inr w"
| "save_loop L build_dir base_img (s # ss) w =
     (let (r, w1) = Image_resize L base_img (s, s) w;
          filename = icon_filename s
      in case Image_save L r (os_path_join build_dir filename) w1 of
           Inl e \<Rightarrow> Inl e
         | Inr w2 \<Rightarrow> save_loop L build_dir base_img ss (print (''Created '' @ filename) w2))"

definition save_icon_sizes :: "'f pil \<Rightarrow> string \<Rightarrow> nat \<Rightarrow> world \<Rightarrow> world result" where
  "save_icon_sizes L build_dir base_img w =
     (case save_loop L build_dir base_img sizes w of
        Inl e \<Rightarrow> Inl e
      | Inr w1 \<Rightarrow>
          (case Image_save L base_img (os_path_join build_dir ''icon.png'') w1 of
             Inl e \<Rightarrow> Inl e
           | Inr w2 \<Rightarrow> Inr (print ''Created icon.png'' w2)))"

definition closing_lines :: "string list" where
  "closing_lines =
     [CHR 0x0A # ''Icon files created! Use an online converter or macOS to create the .icns file:'',
      ''1. Go to https://convertio.co/png-icns/'',
      ''2. Upload icon.png'',
      ''3. Download the .icns file'',
      ''4. Place it in the build directory as '' @ [CHR 0x27] @ ''icon.icns'' @ [CHR 0x27]]"

definition main :: "'f pil \<Rightarrow> string \<Rightarrow> world \<Rightarrow> world result" where
  \<comment> \<open>lines 67 to 75; \<open>build_dir\<close> is what line 55 computes, \<open>build_dir_of\<close> of the
      script file's absolute path\<close>
  "main L build_dir w0 =
     (let w1 = print ''Creating CoreLink macOS icon...'' w0;
          (icon, w2) = create_icon L w1
      in case save_icon_sizes L build_dir icon w2 of
           Inl e \<Rightarrow> Inl e
         | Inr w3 \<Rightarrow> Inr (foldl (\<lambda>w s. print s w) w3 closing_lines))"

section \<open>What a run writes\<close>

text \<open>
  The definitions of this section describe the effect of \<^verbatim>\<open>save_icon_sizes\<close> on the
  file system as a map of the files written, and name the raster \<^verbatim>\<open>create_icon\<close>
  composes. They are related to the code by the lemmas \<open>save_icon_sizes_world\<close> and
  \<open>create_icon_eq\<close> below.
\<close>

definition icon_path :: "string \<Rightarrow> int \<Rightarrow> string" where
  "icon_path d s = os_path_join d (icon_filename s)"

fun loop_writes ::
  "'f pil \<Rightarrow> string \<Rightarrow> image \<Rightarrow> (string \<Rightarrow> bool) \<Rightarrow> int list \<Rightarrow> (string \<rightharpoonup> nat list)" where
  "loop_writes L d src cw [] = Map.empty"
| "loop_writes L d src cw (s # ss) =
     (if cw (icon_path d s)
      then [icon_path d s \<mapsto> png_encode L (resized L src (s, s))] ++ loop_writes L d src cw ss
      else Map.empty)"

definition writes :: "'f pil \<Rightarrow> string \<Rightarrow> image \<Rightarrow> (string \<Rightarrow> bool) \<Rightarrow> (string \<rightharpoonup> nat list)" where
  "writes L d src cw =
     (if (\<forall>s\<in>set sizes. cw (icon_path d s)) \<and> cw (os_path_join d ''icon.png'')
      then loop_writes L d src cw sizes ++ [os_path_join d ''icon.png'' \<mapsto> png_encode L src]
      else loop_writes L d src cw sizes)"

definition badge :: "'f pil \<Rightarrow> image" where
  "badge L =
     (let i0 = \<lparr>mode = ''RGBA'', width = size_px, height = size_px, pixels = (\<lambda>_. (0, 0, 0, 0))\<rparr>;
          i1 = i0\<lparr>pixels := ellipse_px L outer_box (41, 128, 185, 255) i0\<rparr>;
          i2 = i1\<lparr>pixels := ellipse_px L inner_box (52, 152, 219, 255) i1\<rparr>;
          font = select_font L
      in i2\<lparr>pixels :=
           text_px L (text_anchor (draw_textbbox L (0, 0) ''C'' font)) ''C''
             (255, 255, 255, 255) font i2\<rparr>)"

definition badge_with :: "'f pil \<Rightarrow> 'f \<Rightarrow> image" where
  \<comment> \<open>the raster of \<^verbatim>\<open>create_icon\<close> when the text is measured and drawn with \<open>font\<close>\<close>
  "badge_with L font =
     (let i0 = \<lparr>mode = ''RGBA'', width = size_px, height = size_px, pixels = (\<lambda>_. (0, 0, 0, 0))\<rparr>;
          i1 = i0\<lparr>pixels := ellipse_px L outer_box (41, 128, 185, 255) i0\<rparr>;
          i2 = i1\<lparr>pixels := ellipse_px L inner_box (52, 152, 219, 255) i1\<rparr>
      in i2\<lparr>pixels :=
           text_px L (text_anchor (draw_textbbox L (0, 0) ''C'' font)) ''C''
             (255, 255, 255, 255) font i2\<rparr>)"

definition output_names :: "string list" where
  "output_names = map icon_filename sizes @ [''icon.png'']"

definition output_paths :: "string \<Rightarrow> string list" where
  "output_paths d = map (os_path_join d) output_names"

definition codec_rgba_ok :: "'f pil \<Rightarrow> bool" where
  \<comment> \<open>the PNG codec on the images the script saves: an \<^verbatim>\<open>RGBA\<close> image of positive
      size, once encoded, decodes to an \<^verbatim>\<open>RGBA\<close> image of the same size\<close>
  "codec_rgba_ok L \<longleftrightarrow>
     (\<forall>img. mode img = ''RGBA'' \<and> 0 < width img \<and> 0 < height img \<longrightarrow>
        (\<exists>img'. png_decode L (png_encode L img) = Some img' \<and>
           mode img' = ''RGBA'' \<and> width img' = width img \<and> height img' = height img))"

definition box_centre2 :: "box \<Rightarrow> int \<times> int" where
  \<comment> \<open>twice the centre of a box, to stay in the integers\<close>
  "box_centre2 b = (case b of (x0, y0, x1, y1) \<Rightarrow> (x0 + x1, y0 + y1))"

section \<open>A concrete environment\<close>

text \<open>
  A small library instance and world on which the theorems below are instantiated: a font
  is a name and a size, only \<^verbatim>\<open>arial.ttf\<close> can be loaded, its glyph box has the
  left and top bearings of an outline font, the rasterisers fill the box they are given,
  resampling takes the nearest pixel and the codec stores the header of an image.
\<close>

definition demo_pil :: "(string \<times> int) pil" where
  "demo_pil =
     \<lparr>truetype = (\<lambda>name sz. if name = ''arial.ttf'' then Some (name, sz) else None),
      load_default = (''default'', 10),
      getbbox = (\<lambda>font text. if fst font = ''arial.ttf'' then (26, 88, 286, 388) else (0, 0, 6, 11)),
      ellipse_px = (\<lambda>b fill img p.
         case b of (x0, y0, x1, y1) \<Rightarrow>
           if x0 \<le> fst p \<and> fst p \<le> x1 \<and> y0 \<le> snd p \<and> snd p \<le> y1 then fill else pixels img p),
      text_px = (\<lambda>xy text fill font img p.
         if fst xy \<le> fst p \<and> fst p < fst xy + 6 \<and> snd xy \<le> snd p \<and> snd p < snd xy + 11
         then fill else pixels img p),
      lanczos_px = (\<lambda>img sz p.
         pixels img (fst p * width img div fst sz, snd p * height img div snd sz)),
      png_encode = (\<lambda>img. nat (width img) # nat (height img) # map of_char (mode img)),
      png_decode = (\<lambda>bs.
         case bs of
           w # h # m \<Rightarrow>
             Some \<lparr>mode = map char_of m, width = int w, height = int h,
                   pixels = (\<lambda>_. (0, 0, 0, 0))\<rparr>
         | _ \<Rightarrow> None)\<rparr>"

definition demo_world :: world where
  "demo_world =
     \<lparr>objs = [\<lparr>mode = ''RGBA'', width = 2, height = 2, pixels = (\<lambda>_. (0, 0, 0, 255))\<rparr>],
      files = Map.empty,
      can_write = (\<lambda>_. True),
      stdout = []\<rparr>"

section \<open>The export loop\<close>

lemma world_of_simps [simp]:
  "world_of (Inr w) = w" "world_of (Inl (e, w)) = w"
  by (simp_all add: world_of_def)

lemma print_fields [simp]:
  "objs (print s w) = objs w" "files (print s w) = files w"
  "can_write (print s w) = can_write w" "stdout (print s w) = stdout w @ [s]"
  by (simp_all add: print_def)

lemma save_loop_world:
  "base < length (objs w) \<Longrightarrow>
   files (world_of (save_loop L d base ss w)) =
     files w ++ loop_writes L d (objs w ! base) (can_write w) ss \<and>
   can_write (world_of (save_loop L d base ss w)) = can_write w \<and>
   take (length (objs w)) (objs (world_of (save_loop L d base ss w))) = objs w"
proof (induction ss arbitrary: w)
  case Nil
  then show ?case by simp
next
  case (Cons s ss)
  let ?p = "icon_path d s"
  let ?w1 = "w\<lparr>objs := objs w @ [resized L (objs w ! base) (s, s)]\<rparr>"
  show ?case
  proof (cases "can_write w ?p")
    case False
    then show ?thesis
      by (simp add: Image_resize_def Image_save_def icon_path_def Let_def)
  next
    case True
    let ?w2 = "print (''Created '' @ icon_filename s)
                 (?w1\<lparr>files := (files w)(?p \<mapsto> png_encode L (resized L (objs w ! base) (s, s)))\<rparr>)"
    have step: "save_loop L d base (s # ss) w = save_loop L d base ss ?w2"
      using True by (simp add: Image_resize_def Image_save_def icon_path_def Let_def)
    have b: "base < length (objs ?w2)"
      using Cons.prems by simp
    have o: "objs ?w2 ! base = objs w ! base"
      using Cons.prems by (simp add: nth_append)
    have t: "take (length (objs w)) (objs (world_of (save_loop L d base ss ?w2))) = objs w"
    proof -
      have "take (length (objs ?w2)) (objs (world_of (save_loop L d base ss ?w2))) = objs ?w2"
        using Cons.IH [OF b] by blast
      then have "take (length (objs w)) (take (length (objs ?w2)) (objs (world_of (save_loop L d base ss ?w2))))
                 = take (length (objs w)) (objs ?w2)"
        by simp
      then show ?thesis by (simp add: min_def)
    qed
    let ?e = "png_encode L (resized L (objs w ! base) (s, s))"
    let ?r = "world_of (save_loop L d base ss ?w2)"
    have ih: "files ?r = files ?w2 ++ loop_writes L d (objs ?w2 ! base) (can_write ?w2) ss"
      and ihc: "can_write ?r = can_write ?w2"
      using Cons.IH [OF b] by blast+
    have f2: "files ?w2 = files w ++ [?p \<mapsto> ?e]"
      by simp
    have c2: "can_write ?w2 = can_write w"
      by simp
    have lw: "loop_writes L d (objs w ! base) (can_write w) (s # ss) =
              [?p \<mapsto> ?e] ++ loop_writes L d (objs w ! base) (can_write w) ss"
      using True by simp
    have "files ?r = files w ++ loop_writes L d (objs w ! base) (can_write w) (s # ss)"
      unfolding ih f2 o c2 lw by (rule map_add_assoc [symmetric])
    moreover have "can_write ?r = can_write w"
      unfolding ihc c2 ..
    ultimately show ?thesis
      unfolding step using t by blast
  qed
qed

lemma save_loop_Inr:
  "(\<exists>w'. save_loop L d base ss w = Inr w') \<longleftrightarrow> (\<forall>s\<in>set ss. can_write w (icon_path d s))"
  by (induction ss arbitrary: w)
     (auto simp: Image_resize_def Image_save_def icon_path_def Let_def)

lemma save_loop_stdout:
  "save_loop L d base ss w = Inr w' \<Longrightarrow>
   stdout w' = stdout w @ map (\<lambda>s. ''Created '' @ icon_filename s) ss"
  by (induction ss arbitrary: w)
     (auto simp: Image_resize_def Image_save_def Let_def split: if_splits)

lemma take_nth_same:
  "take (length xs) ys = xs \<Longrightarrow> i < length xs \<Longrightarrow> i < length ys \<and> ys ! i = xs ! i"
  by (metis length_take min_less_iff_conj nth_take)

lemma save_icon_sizes_world:
  assumes "base < length (objs w)"
  shows "files (world_of (save_icon_sizes L d base w)) =
           files w ++ writes L d (objs w ! base) (can_write w)"
    and "can_write (world_of (save_icon_sizes L d base w)) = can_write w"
    and "take (length (objs w)) (objs (world_of (save_icon_sizes L d base w))) = objs w"
proof -
  let ?r = "save_loop L d base sizes w"
  note lw = save_loop_world [OF assms, of L d sizes]
  have all3:
    "files (world_of (save_icon_sizes L d base w)) =
           files w ++ writes L d (objs w ! base) (can_write w) \<and>
     can_write (world_of (save_icon_sizes L d base w)) = can_write w \<and>
     take (length (objs w)) (objs (world_of (save_icon_sizes L d base w))) = objs w"
  proof (cases ?r)
    case (Inl ew)
    then have "\<not> (\<forall>s\<in>set sizes. can_write w (icon_path d s))"
      using save_loop_Inr [of L d base sizes w] by auto
    then have "writes L d (objs w ! base) (can_write w) =
               loop_writes L d (objs w ! base) (can_write w) sizes"
      unfolding writes_def by (simp only: simp_thms if_False)
    moreover have "save_icon_sizes L d base w = ?r"
      using Inl by (simp add: save_icon_sizes_def)
    ultimately show ?thesis using lw by simp
  next
    case (Inr w1)
    then have allw: "\<forall>s\<in>set sizes. can_write w (icon_path d s)"
      using save_loop_Inr [of L d base sizes w] by auto
    from lw Inr have f1: "files w1 = files w ++ loop_writes L d (objs w ! base) (can_write w) sizes"
      and c1: "can_write w1 = can_write w"
      and t1: "take (length (objs w)) (objs w1) = objs w"
      by simp_all
    from take_nth_same [OF t1 assms] have o1: "objs w1 ! base = objs w ! base"
      by simp
    show ?thesis
    proof (cases "can_write w (os_path_join d ''icon.png'')")
      case True
      then have "save_icon_sizes L d base w =
                 Inr (print ''Created icon.png''
                   (w1\<lparr>files := (files w1)(os_path_join d ''icon.png'' \<mapsto> png_encode L (objs w1 ! base))\<rparr>))"
        using Inr c1 by (simp add: save_icon_sizes_def Image_save_def)
      moreover have "writes L d (objs w ! base) (can_write w) =
          loop_writes L d (objs w ! base) (can_write w) sizes ++
            [os_path_join d ''icon.png'' \<mapsto> png_encode L (objs w ! base)]"
        using True allw by (simp add: writes_def)
      ultimately show ?thesis
        using f1 c1 t1 o1 by simp
    next
      case False
      then have "save_icon_sizes L d base w = Inl (OSError (os_path_join d ''icon.png''), w1)"
        using Inr c1 by (simp add: save_icon_sizes_def Image_save_def)
      moreover have "writes L d (objs w ! base) (can_write w) =
          loop_writes L d (objs w ! base) (can_write w) sizes"
        using False by (simp add: writes_def)
      ultimately show ?thesis
        using f1 c1 t1 by simp
    qed
  qed
  show "files (world_of (save_icon_sizes L d base w)) =
           files w ++ writes L d (objs w ! base) (can_write w)"
    and "can_write (world_of (save_icon_sizes L d base w)) = can_write w"
    and "take (length (objs w)) (objs (world_of (save_icon_sizes L d base w))) = objs w"
    using all3 by blast+
qed

lemma create_icon_eq:
  "create_icon L w = (length (objs w), w\<lparr>objs := objs w @ [badge L]\<rparr>)"
  by (simp add: create_icon_def Image_new_def draw_ellipse_def draw_text_def badge_def Let_def)

section \<open>Geometry of the two circles\<close>

lemma geometry_values:
  "size_px = 1024" "center = 512" "radius = 460" "inner_radius = 368" "font_size = 409"
  by code_simp+



section \<open>The export leaves the base raster alone\<close>

text \<open>
  C8: \<^verbatim>\<open>save_icon_sizes\<close> never changes the base raster. Whatever the outcome of the
  export (all eight files written, or a write refused on the way), the object the base
  reference points to is the same image afterwards: every resize allocates a new object.
\<close>

theorem export_preserves_base:
  assumes "base_img < length (objs w)"
  shows "base_img < length (objs (world_of (save_icon_sizes L d base_img w))) \<and>
         objs (world_of (save_icon_sizes L d base_img w)) ! base_img = objs w ! base_img"
  using take_nth_same [OF save_icon_sizes_world(3) [OF assms] assms] .

theorem export_preserves_base_witness:
  "0 < length (objs demo_world) \<and>
   0 < length (objs (world_of (save_icon_sizes demo_pil ''/app/build'' 0 demo_world))) \<and>
   objs (world_of (save_icon_sizes demo_pil ''/app/build'' 0 demo_world)) ! 0 =
     objs demo_world ! 0"
  using export_preserves_base [of 0 demo_world demo_pil "''/app/build''"]
  by (simp add: demo_world_def)

section \<open>The files of a run\<close>

lemma output_names_eq:
  "output_names =
     [''icon_16x16.png'', ''icon_32x32.png'', ''icon_64x64.png'', ''icon_128x128.png'',
      ''icon_256x256.png'', ''icon_512x512.png'', ''icon_1024x1024.png'', ''icon.png'']"
  by code_simp

lemma os_path_join_inj:
  "a \<noteq> [] \<Longrightarrow> hd a \<noteq> CHR ''/'' \<Longrightarrow> b \<noteq> [] \<Longrightarrow> hd b \<noteq> CHR ''/'' \<Longrightarrow>
   os_path_join d a = os_path_join d b \<longleftrightarrow> a = b"
  by (simp add: os_path_join_def)

lemma dirname_head:
  assumes "CHR ''/'' \<notin> set base"
  shows "rev (dropWhile (\<lambda>c. c \<noteq> CHR ''/'') (rev (dir @ ''/'' @ base))) = dir @ ''/''"
proof -
  have "dropWhile (\<lambda>c. c \<noteq> CHR ''/'') (rev base @ CHR ''/'' # rev dir) =
        dropWhile (\<lambda>c. c \<noteq> CHR ''/'') (CHR ''/'' # rev dir)"
    using assms by (intro dropWhile_append2) auto
  then show ?thesis by simp
qed

lemma build_dir_of_file:
  assumes "CHR ''/'' \<notin> set base" and "dir = [] \<or> last dir \<noteq> CHR ''/''"
  shows "build_dir_of (dir @ ''/'' @ base) = (if dir = [] then ''/'' else dir)"
proof (cases "dir = []")
  case True
  then show ?thesis
    using dirname_head [OF assms(1), of dir]
    by (simp add: build_dir_of_def os_path_dirname_def Let_def)
next
  case False
  then have l: "last dir \<noteq> CHR ''/''" using assms(2) by simp
  have "last dir \<in> set (dir @ ''/'')" using False by simp
  then have ne: "dir @ ''/'' \<noteq> replicate (length (dir @ ''/'')) (CHR ''/'')"
    using l by (metis in_set_replicate)
  from False obtain xs x where d: "dir = xs @ [x]"
    by (metis rev_exhaust)
  then have "x \<noteq> CHR ''/''" using l by simp
  then have "dropWhile (\<lambda>c. c = CHR ''/'') (rev dir) = rev dir"
    unfolding d by simp
  then show ?thesis
    using False ne dirname_head [OF assms(1), of dir]
    by (simp add: build_dir_of_def os_path_dirname_def Let_def)
qed

lemma join_build_dir:
  assumes "CHR ''/'' \<notin> set base" and "dir = [] \<or> last dir \<noteq> CHR ''/''"
    and "n \<noteq> []" and "hd n \<noteq> CHR ''/''"
  shows "os_path_join (build_dir_of (dir @ ''/'' @ base)) n = dir @ ''/'' @ n"
  using assms(2-4) unfolding build_dir_of_file [OF assms(1,2)]
  by (auto simp: os_path_join_def)

lemma names_relative: "\<forall>n\<in>set output_names. n \<noteq> [] \<and> hd n \<noteq> CHR ''/''"
  unfolding output_names_eq by simp

lemma distinct_output_names: "distinct output_names"
  unfolding output_names_eq by simp

lemma distinct_output_paths: "distinct (output_paths d)"
  unfolding output_paths_def distinct_map
  using distinct_output_names names_relative
  by (auto simp: inj_on_def os_path_join_inj)

lemma output_paths_split:
  "output_paths d = map (icon_path d) sizes @ [os_path_join d ''icon.png'']"
  by (simp add: output_paths_def output_names_def icon_path_def)

lemma icon_path_inj: "inj_on (icon_path d) (set sizes)"
  using distinct_output_paths [of d] unfolding output_paths_split
  by (simp add: distinct_map)

lemma icon_png_not_sized: "os_path_join d ''icon.png'' \<notin> icon_path d ` set sizes"
  using distinct_output_paths [of d] unfolding output_paths_split
  by simp

lemma writable_split:
  "(\<forall>p\<in>set (output_paths d). cw p) \<longleftrightarrow>
   (\<forall>s\<in>set sizes. cw (icon_path d s)) \<and> cw (os_path_join d ''icon.png'')"
  unfolding output_paths_split by auto

lemma loop_writes_dom:
  "\<forall>s\<in>set ss. cw (icon_path d s) \<Longrightarrow>
   dom (loop_writes L d src cw ss) = icon_path d ` set ss"
  by (induction ss) auto

lemma loop_writes_lookup:
  "\<forall>s\<in>set ss. cw (icon_path d s) \<Longrightarrow> inj_on (icon_path d) (set ss) \<Longrightarrow> S \<in> set ss \<Longrightarrow>
   loop_writes L d src cw ss (icon_path d S) = Some (png_encode L (resized L src (S, S)))"
proof (induction ss)
  case Nil
  then show ?case by simp
next
  case (Cons s ss)
  show ?case
  proof (cases "S \<in> set ss")
    case True
    then have "loop_writes L d src cw ss (icon_path d S) =
               Some (png_encode L (resized L src (S, S)))"
      using Cons by (simp add: inj_on_def)
    then show ?thesis using Cons.prems(1) by (simp add: map_add_def)
  next
    case False
    then have eq: "S = s" using Cons.prems(3) by simp
    have "icon_path d s \<notin> icon_path d ` set ss"
      using Cons.prems(2) False eq by (auto simp: inj_on_def)
    then have "loop_writes L d src cw ss (icon_path d s) = None"
      using loop_writes_dom [of ss cw d L src] Cons.prems(1) by (auto simp: dom_def)
    then show ?thesis using Cons.prems(1) eq by (simp add: map_add_def)
  qed
qed

lemma writes_all:
  "\<forall>p\<in>set (output_paths d). cw p \<Longrightarrow>
   writes L d src cw =
     loop_writes L d src cw sizes ++ [os_path_join d ''icon.png'' \<mapsto> png_encode L src]"
  unfolding writable_split by (simp add: writes_def)

lemma writes_sized:
  assumes "\<forall>p\<in>set (output_paths d). cw p" and "S \<in> set sizes"
  shows "(m ++ writes L d src cw) (icon_path d S) = Some (png_encode L (resized L src (S, S)))"
proof -
  have "icon_path d S \<noteq> os_path_join d ''icon.png''"
    using icon_png_not_sized [of d] assms(2) by (metis image_eqI)
  moreover have "loop_writes L d src cw sizes (icon_path d S) =
                 Some (png_encode L (resized L src (S, S)))"
    using assms loop_writes_lookup [OF _ icon_path_inj] unfolding writable_split by blast
  ultimately show ?thesis
    unfolding writes_all [OF assms(1)] by (simp add: map_add_def)
qed

lemma writes_icon_png:
  assumes "\<forall>p\<in>set (output_paths d). cw p"
  shows "(m ++ writes L d src cw) (os_path_join d ''icon.png'') = Some (png_encode L src)"
  unfolding writes_all [OF assms] by simp

lemma writes_dom:
  assumes "\<forall>p\<in>set (output_paths d). cw p"
  shows "dom (writes L d src cw) = set (output_paths d)"
proof -
  have "dom (loop_writes L d src cw sizes) = icon_path d ` set sizes"
    using assms loop_writes_dom unfolding writable_split by blast
  then show ?thesis
    unfolding writes_all [OF assms] output_paths_split by auto
qed

lemma save_loop_can_write:
  "can_write (world_of (save_loop L d base ss w)) = can_write w"
  by (induction ss arbitrary: w) (auto simp: Image_resize_def Image_save_def Let_def)

lemma save_icon_sizes_Inr:
  "(\<exists>w'. save_icon_sizes L d base w = Inr w') \<longleftrightarrow> (\<forall>p\<in>set (output_paths d). can_write w p)"
proof (cases "save_loop L d base sizes w")
  case (Inl ew)
  then have "\<not> (\<forall>s\<in>set sizes. can_write w (icon_path d s))"
    using save_loop_Inr [of L d base sizes w] by auto
  then show ?thesis
    using Inl unfolding writable_split by (simp add: save_icon_sizes_def)
next
  case (Inr w1)
  then have allw: "\<forall>s\<in>set sizes. can_write w (icon_path d s)"
    using save_loop_Inr [of L d base sizes w] by auto
  have "can_write w1 = can_write w"
    using save_loop_can_write [of L d base sizes w] Inr by simp
  then show ?thesis
    using Inr allw unfolding writable_split
    by (simp add: save_icon_sizes_def Image_save_def)
qed

lemma save_icon_sizes_stdout:
  assumes "save_icon_sizes L d base w = Inr w'"
  shows "stdout w' = stdout w @ map (\<lambda>n. ''Created '' @ n) output_names"
proof -
  from assms obtain w1 where w1: "save_loop L d base sizes w = Inr w1"
    by (auto simp: save_icon_sizes_def split: sum.splits)
  from save_loop_stdout [OF w1] assms w1 show ?thesis
    by (auto simp: save_icon_sizes_def Image_save_def output_names_def comp_def
             split: sum.splits if_splits)
qed

lemma main_eq:
  "main L d w =
     (case save_icon_sizes L d (length (objs w))
             (print ''Creating CoreLink macOS icon...'' w\<lparr>objs := objs w @ [badge L]\<rparr>) of
        Inl e \<Rightarrow> Inl e
      | Inr w3 \<Rightarrow> Inr (foldl (\<lambda>w s. print s w) w3 closing_lines))"
  by (simp add: main_def create_icon_eq Let_def print_def)

lemma foldl_print_fields [simp]:
  "objs (foldl (\<lambda>w s. print s w) w ls) = objs w"
  "files (foldl (\<lambda>w s. print s w) w ls) = files w"
  "can_write (foldl (\<lambda>w s. print s w) w ls) = can_write w"
  "stdout (foldl (\<lambda>w s. print s w) w ls) = stdout w @ ls"
  by (induction ls arbitrary: w) simp_all

section \<open>Dimensions of the resized files\<close>

text \<open>
  C1: for every size \<open>S\<close> of the configured list, the raster written to
  \<^verbatim>\<open>icon_SxS.png\<close> has width \<open>S\<close> and height \<open>S\<close>. When the eight output paths
  can be written, the export returns, and the file of that name holds the encoding of the
  raster \<^verbatim>\<open>resize\<close> returned for \<open>(S, S)\<close>; no later write replaces it.
\<close>

theorem resized_file_dimensions:
  assumes "base_img < length (objs w)"
    and "\<forall>p\<in>set (output_paths d). can_write w p"
    and "S \<in> set sizes"
  shows "\<exists>w' img. save_icon_sizes L d base_img w = Inr w' \<and>
           img = resized L (objs w ! base_img) (S, S) \<and>
           files w' (os_path_join d (icon_filename S)) = Some (png_encode L img) \<and>
           width img = S \<and> height img = S"
proof -
  from assms(2) obtain w' where w': "save_icon_sizes L d base_img w = Inr w'"
    using save_icon_sizes_Inr by blast
  have "files w' = files w ++ writes L d (objs w ! base_img) (can_write w)"
    using save_icon_sizes_world(1) [OF assms(1), of L d] w' by simp
  then have "files w' (icon_path d S) =
             Some (png_encode L (resized L (objs w ! base_img) (S, S)))"
    using writes_sized [OF assms(2,3)] by simp
  then show ?thesis
    using w' by (simp add: icon_path_def resized_def)
qed

theorem resized_file_dimensions_witness:
  "0 < length (objs demo_world) \<and>
   list_all (can_write demo_world) (output_paths ''/app/build'') \<and>
   (64::int) \<in> set sizes \<and>
   (\<exists>w' img. save_icon_sizes demo_pil ''/app/build'' 0 demo_world = Inr w' \<and>
      img = resized demo_pil (objs demo_world ! 0) (64, 64) \<and>
      files w' (os_path_join ''/app/build'' (icon_filename 64)) = Some (png_encode demo_pil img) \<and>
      width img = 64 \<and> height img = 64)"
proof -
  have h0: "0 < length (objs demo_world)"
    by (simp add: demo_world_def)
  have h: "\<forall>p\<in>set (output_paths ''/app/build''). can_write demo_world p"
    by (simp add: demo_world_def)
  have hS: "(64::int) \<in> set sizes"
    by (simp add: sizes_def)
  show ?thesis
    unfolding list_all_iff
    using h0 h hS resized_file_dimensions [OF h0 h hS, of demo_pil] by blast
qed

section \<open>A whole run\<close>

lemma main_ok:
  assumes "\<forall>p\<in>set (output_paths d). can_write w p"
  shows "\<exists>w'. main L d w = Inr w' \<and>
           files w' = files w ++ writes L d (badge L) (can_write w) \<and>
           objs w' ! length (objs w) = badge L \<and>
           stdout w' = stdout w @ [''Creating CoreLink macOS icon...''] @
                         map (\<lambda>n. ''Created '' @ n) output_names @ closing_lines"
proof -
  let ?w2 = "print ''Creating CoreLink macOS icon...'' w\<lparr>objs := objs w @ [badge L]\<rparr>"
  let ?b = "length (objs w)"
  have b: "?b < length (objs ?w2)" by simp
  have cw: "can_write ?w2 = can_write w" by simp
  from assms obtain w3 where w3: "save_icon_sizes L d ?b ?w2 = Inr w3"
    using save_icon_sizes_Inr [of L d ?b ?w2] by auto
  have f: "files w3 = files w ++ writes L d (badge L) (can_write w)"
    using save_icon_sizes_world(1) [OF b, of L d] w3 by simp
  have "take (length (objs ?w2)) (objs w3) = objs ?w2"
    using save_icon_sizes_world(3) [OF b, of L d] w3 by simp
  from take_nth_same [OF this b] have o: "objs w3 ! ?b = badge L" by simp
  have s: "stdout w3 = stdout ?w2 @ map (\<lambda>n. ''Created '' @ n) output_names"
    using save_icon_sizes_stdout [OF w3] .
  have "main L d w = Inr (foldl (\<lambda>w s. print s w) w3 closing_lines)"
    using w3 by (simp add: main_eq)
  then show ?thesis using f o s by simp
qed

lemma badge_fields:
  "mode (badge L) = ''RGBA''" "width (badge L) = 1024" "height (badge L) = 1024"
  by (simp_all add: badge_def Let_def geometry_values)

lemma sizes_pos: "S \<in> set sizes \<Longrightarrow> 0 < S"
  by (auto simp: sizes_def)

lemma badge_with_select: "badge L = badge_with L (select_font L)"
  by (simp add: badge_def badge_with_def Let_def)

lemma output_paths_build_dir:
  assumes "CHR ''/'' \<notin> set base" and "dir = [] \<or> last dir \<noteq> CHR ''/''"
  shows "output_paths (build_dir_of (dir @ ''/'' @ base)) =
           map (\<lambda>n. dir @ ''/'' @ n)
             [''icon_16x16.png'', ''icon_32x32.png'', ''icon_64x64.png'', ''icon_128x128.png'',
              ''icon_256x256.png'', ''icon_512x512.png'', ''icon_1024x1024.png'', ''icon.png'']"
proof -
  let ?d = "build_dir_of (dir @ ''/'' @ base)"
  have "os_path_join ?d n = dir @ ''/'' @ n" if "n \<in> set output_names" for n
    using join_build_dir [OF assms] names_relative that by blast
  then have "map (os_path_join ?d) output_names = map (\<lambda>n. dir @ ''/'' @ n) output_names"
    by (intro map_cong [OF refl])
  then show ?thesis
    unfolding output_paths_def output_names_eq .
qed

lemma demo_codec_rgba_ok: "codec_rgba_ok demo_pil"
  unfolding codec_rgba_ok_def
proof (intro allI impI)
  fix img :: image
  assume a: "mode img = ''RGBA'' \<and> 0 < width img \<and> 0 < height img"
  then have nn: "0 \<le> width img" "0 \<le> height img"
    by simp_all
  have "png_decode demo_pil (png_encode demo_pil img) =
          Some \<lparr>mode = mode img, width = width img, height = height img,
                pixels = (\<lambda>_. (0, 0, 0, 0))\<rparr>"
    using nn by (simp add: demo_pil_def comp_def)
  then show "\<exists>img'. png_decode demo_pil (png_encode demo_pil img) = Some img' \<and>
           mode img' = ''RGBA'' \<and> width img' = width img \<and> height img' = height img"
    using a by simp
qed

text \<open>
  C2: let the script file be \<open>dir/base\<close> (the value of \<^verbatim>\<open>os.path.abspath(__file__)\<close>,
  \<open>base\<close> without a slash). Given that the eight output paths can be written, the run
  returns without a fault and writes exactly eight files, \<open>dir/name\<close> for the eight names
  listed: they lie in the directory of the script file itself, are pairwise different,
  and every other path of the file system is left as it was.
\<close>

theorem main_writes_eight_files:
  assumes "CHR ''/'' \<notin> set base" and "dir = [] \<or> last dir \<noteq> CHR ''/''"
    and "\<forall>p\<in>set (output_paths (build_dir_of (dir @ ''/'' @ base))). can_write w p"
  shows "\<exists>w'. main L (build_dir_of (dir @ ''/'' @ base)) w = Inr w' \<and>
           output_paths (build_dir_of (dir @ ''/'' @ base)) =
             map (\<lambda>n. dir @ ''/'' @ n)
               [''icon_16x16.png'', ''icon_32x32.png'', ''icon_64x64.png'', ''icon_128x128.png'',
                ''icon_256x256.png'', ''icon_512x512.png'', ''icon_1024x1024.png'', ''icon.png''] \<and>
           dom (files w') = dom (files w) \<union> set (output_paths (build_dir_of (dir @ ''/'' @ base))) \<and>
           (\<forall>p. p \<notin> set (output_paths (build_dir_of (dir @ ''/'' @ base))) \<longrightarrow>
                files w' p = files w p) \<and>
           distinct (output_paths (build_dir_of (dir @ ''/'' @ base))) \<and>
           length (output_paths (build_dir_of (dir @ ''/'' @ base))) = 8"
proof -
  let ?d = "build_dir_of (dir @ ''/'' @ base)"
  from main_ok [OF assms(3), of L] obtain w' where
    w': "main L ?d w = Inr w'" and
    f: "files w' = files w ++ writes L ?d (badge L) (can_write w)"
    by blast
  have d: "dom (writes L ?d (badge L) (can_write w)) = set (output_paths ?d)"
    using writes_dom [OF assms(3)] .
  have "dom (files w') = dom (files w) \<union> set (output_paths ?d)"
    unfolding f dom_map_add d by auto
  moreover have "\<forall>p. p \<notin> set (output_paths ?d) \<longrightarrow> files w' p = files w p"
    unfolding f using d by (auto simp: map_add_def dom_def split: option.splits)
  moreover have "length (output_paths ?d) = 8"
    unfolding output_paths_def output_names_eq by simp
  ultimately show ?thesis
    using w' distinct_output_paths output_paths_build_dir [OF assms(1,2)] by blast
qed

theorem main_writes_eight_files_witness:
  "CHR ''/'' \<notin> set ''create-mac-icon.py'' \<and>
   (''/app/build'' = [] \<or> last ''/app/build'' \<noteq> CHR ''/'') \<and>
   list_all (can_write demo_world)
     (output_paths (build_dir_of (''/app/build'' @ ''/'' @ ''create-mac-icon.py''))) \<and>
   (\<exists>w'. main demo_pil (build_dir_of (''/app/build'' @ ''/'' @ ''create-mac-icon.py'')) demo_world = Inr w' \<and>
      output_paths (build_dir_of (''/app/build'' @ ''/'' @ ''create-mac-icon.py'')) =
        map (\<lambda>n. ''/app/build'' @ ''/'' @ n)
          [''icon_16x16.png'', ''icon_32x32.png'', ''icon_64x64.png'', ''icon_128x128.png'',
           ''icon_256x256.png'', ''icon_512x512.png'', ''icon_1024x1024.png'', ''icon.png''] \<and>
      dom (files w') = dom (files demo_world) \<union>
        set (output_paths (build_dir_of (''/app/build'' @ ''/'' @ ''create-mac-icon.py''))) \<and>
      (\<forall>p. p \<notin> set (output_paths (build_dir_of (''/app/build'' @ ''/'' @ ''create-mac-icon.py''))) \<longrightarrow>
           files w' p = files demo_world p) \<and>
      distinct (output_paths (build_dir_of (''/app/build'' @ ''/'' @ ''create-mac-icon.py''))) \<and>
      length (output_paths (build_dir_of (''/app/build'' @ ''/'' @ ''create-mac-icon.py''))) = 8)"
proof -
  have h1: "CHR ''/'' \<notin> set ''create-mac-icon.py''" by simp
  have h2: "''/app/build'' = [] \<or> last ''/app/build'' \<noteq> CHR ''/''" by simp
  have h3: "\<forall>p\<in>set (output_paths (build_dir_of (''/app/build'' @ ''/'' @ ''create-mac-icon.py''))).
              can_write demo_world p"
    by (simp add: demo_world_def)
  show ?thesis
    unfolding list_all_iff
    using h1 h2 h3 main_writes_eight_files [OF h1 h2 h3, of demo_pil] by blast
qed

text \<open>
  C3: the raster written to \<^verbatim>\<open>icon.png\<close> is the base raster composed by
  \<^verbatim>\<open>create_icon\<close>, of width and height 1024.
\<close>

theorem icon_png_dimensions:
  assumes "\<forall>p\<in>set (output_paths d). can_write w p"
  shows "\<exists>w' img. main L d w = Inr w' \<and>
           img = objs w' ! length (objs w) \<and>
           files w' (os_path_join d ''icon.png'') = Some (png_encode L img) \<and>
           width img = size_px \<and> height img = size_px \<and> size_px = 1024"
proof -
  from main_ok [OF assms, of L] obtain w' where
    w': "main L d w = Inr w'" and
    f: "files w' = files w ++ writes L d (badge L) (can_write w)" and
    o: "objs w' ! length (objs w) = badge L"
    by blast
  have "files w' (os_path_join d ''icon.png'') = Some (png_encode L (badge L))"
    unfolding f using writes_icon_png [OF assms] .
  then show ?thesis
    using w' o by (simp add: badge_fields geometry_values)
qed

theorem icon_png_dimensions_witness:
  "list_all (can_write demo_world) (output_paths ''/app/build'') \<and>
   (\<exists>w' img. main demo_pil ''/app/build'' demo_world = Inr w' \<and>
      img = objs w' ! length (objs demo_world) \<and>
      files w' (os_path_join ''/app/build'' ''icon.png'') = Some (png_encode demo_pil img) \<and>
      width img = size_px \<and> height img = size_px \<and> size_px = 1024)"
proof -
  have h: "\<forall>p\<in>set (output_paths ''/app/build''). can_write demo_world p"
    by (simp add: demo_world_def)
  show ?thesis
    unfolding list_all_iff using h icon_png_dimensions [OF h, of demo_pil] by blast
qed

text \<open>
  C4: when \<^verbatim>\<open>ImageFont.truetype\<close> fails, the default font is the one selected and the
  run goes on with it: the raster composed is the one whose text is measured and drawn
  with the default font, \<^verbatim>\<open>icon.png\<close> and the seven resized files hold that raster and
  its resized copies, and standard output carries the same lines as any other run, so
  nothing of the failure is reported.
\<close>

theorem font_fallback_completes:
  assumes "truetype L ''arial.ttf'' font_size = None"
    and "\<forall>p\<in>set (output_paths d). can_write w p"
  shows "select_font L = load_default L \<and>
         (\<exists>w'. main L d w = Inr w' \<and>
            objs w' ! length (objs w) = badge_with L (load_default L) \<and>
            files w' (os_path_join d ''icon.png'') =
              Some (png_encode L (badge_with L (load_default L))) \<and>
            (\<forall>S\<in>set sizes. files w' (os_path_join d (icon_filename S)) =
               Some (png_encode L (resized L (badge_with L (load_default L)) (S, S)))) \<and>
            distinct (output_paths d) \<and> length (output_paths d) = 8 \<and>
            stdout w' = stdout w @ [''Creating CoreLink macOS icon...''] @
                          map (\<lambda>n. ''Created '' @ n) output_names @ closing_lines)"
proof -
  have sel: "select_font L = load_default L"
    using assms(1) by (simp add: select_font_def)
  then have b: "badge L = badge_with L (load_default L)"
    by (simp add: badge_with_select)
  from main_ok [OF assms(2), of L] obtain w' where
    w': "main L d w = Inr w'" and
    f: "files w' = files w ++ writes L d (badge L) (can_write w)" and
    o: "objs w' ! length (objs w) = badge L" and
    s: "stdout w' = stdout w @ [''Creating CoreLink macOS icon...''] @
                          map (\<lambda>n. ''Created '' @ n) output_names @ closing_lines"
    by blast
  have i: "files w' (os_path_join d ''icon.png'') = Some (png_encode L (badge L))"
    unfolding f using writes_icon_png [OF assms(2)] .
  have r: "\<forall>S\<in>set sizes. files w' (os_path_join d (icon_filename S)) =
               Some (png_encode L (resized L (badge L) (S, S)))"
    unfolding f using writes_sized [OF assms(2), of _ "files w" L "badge L"]
    by (simp add: icon_path_def)
  have "length (output_paths d) = 8"
    unfolding output_paths_def output_names_eq by simp
  then show ?thesis
    using sel w' o i r s distinct_output_paths unfolding b by blast
qed

theorem font_fallback_completes_witness:
  "truetype (demo_pil\<lparr>truetype := \<lambda>name sz. None\<rparr>) ''arial.ttf'' font_size = None \<and>
   list_all (can_write demo_world) (output_paths ''/app/build'') \<and>
   select_font (demo_pil\<lparr>truetype := \<lambda>name sz. None\<rparr>) =
     load_default (demo_pil\<lparr>truetype := \<lambda>name sz. None\<rparr>) \<and>
   (\<exists>w'. main (demo_pil\<lparr>truetype := \<lambda>name sz. None\<rparr>) ''/app/build'' demo_world = Inr w' \<and>
      objs w' ! length (objs demo_world) =
        badge_with (demo_pil\<lparr>truetype := \<lambda>name sz. None\<rparr>)
          (load_default (demo_pil\<lparr>truetype := \<lambda>name sz. None\<rparr>)) \<and>
      files w' (os_path_join ''/app/build'' ''icon.png'') =
        Some (png_encode (demo_pil\<lparr>truetype := \<lambda>name sz. None\<rparr>)
          (badge_with (demo_pil\<lparr>truetype := \<lambda>name sz. None\<rparr>)
             (load_default (demo_pil\<lparr>truetype := \<lambda>name sz. None\<rparr>)))) \<and>
      (\<forall>S\<in>set sizes. files w' (os_path_join ''/app/build'' (icon_filename S)) =
         Some (png_encode (demo_pil\<lparr>truetype := \<lambda>name sz. None\<rparr>)
           (resized (demo_pil\<lparr>truetype := \<lambda>name sz. None\<rparr>)
              (badge_with (demo_pil\<lparr>truetype := \<lambda>name sz. None\<rparr>)
                 (load_default (demo_pil\<lparr>truetype := \<lambda>name sz. None\<rparr>))) (S, S)))) \<and>
      distinct (output_paths ''/app/build'') \<and> length (output_paths ''/app/build'') = 8 \<and>
      stdout w' = stdout demo_world @ [''Creating CoreLink macOS icon...''] @
                    map (\<lambda>n. ''Created '' @ n) output_names @ closing_lines)"
proof -
  have h1: "truetype (demo_pil\<lparr>truetype := \<lambda>name sz. None\<rparr>) ''arial.ttf'' font_size = None"
    by simp
  have h2: "\<forall>p\<in>set (output_paths ''/app/build''). can_write demo_world p"
    by (simp add: demo_world_def)
  show ?thesis
    unfolding list_all_iff using h1 h2 font_fallback_completes [OF h1 h2] by blast
qed

text \<open>
  C5: two runs in the same library and font environment \<open>L\<close>, from any two worlds in
  which the output paths can be written, compose the same raster and leave the same
  contents in each of the eight output files, whatever the files held before.
\<close>

theorem run_deterministic:
  assumes "\<forall>p\<in>set (output_paths d). can_write w1 p"
    and "\<forall>p\<in>set (output_paths d). can_write w2 p"
  shows "objs (snd (create_icon L w1)) ! fst (create_icon L w1) =
           objs (snd (create_icon L w2)) ! fst (create_icon L w2) \<and>
         (\<exists>v1 v2. main L d w1 = Inr v1 \<and> main L d w2 = Inr v2 \<and>
            (\<forall>p\<in>set (output_paths d). files v1 p = files v2 p))"
proof -
  from main_ok [OF assms(1), of L] obtain v1 where
    v1: "main L d w1 = Inr v1" and
    f1: "files v1 = files w1 ++ writes L d (badge L) (can_write w1)"
    by blast
  from main_ok [OF assms(2), of L] obtain v2 where
    v2: "main L d w2 = Inr v2" and
    f2: "files v2 = files w2 ++ writes L d (badge L) (can_write w2)"
    by blast
  have "files v1 p = files v2 p" if p: "p \<in> set (output_paths d)" for p
  proof (cases "p = os_path_join d ''icon.png''")
    case True
    then show ?thesis
      unfolding f1 f2 True
      using writes_icon_png [OF assms(1), of "files w1" L "badge L"]
            writes_icon_png [OF assms(2), of "files w2" L "badge L"]
      by simp
  next
    case False
    then obtain S where S: "S \<in> set sizes" "p = icon_path d S"
      using p unfolding output_paths_split by auto
    show ?thesis
      unfolding f1 f2 S(2)
      using writes_sized [OF assms(1) S(1), of "files w1" L "badge L"]
            writes_sized [OF assms(2) S(1), of "files w2" L "badge L"]
      by simp
  qed
  then show ?thesis
    using v1 v2 by (simp add: create_icon_eq)
qed

theorem run_deterministic_witness:
  "list_all (can_write demo_world) (output_paths ''/app/build'') \<and>
   list_all (can_write (demo_world\<lparr>files := [''/app/build/icon.png'' \<mapsto> [1, 2, 3]]\<rparr>))
     (output_paths ''/app/build'') \<and>
   objs (snd (create_icon demo_pil demo_world)) ! fst (create_icon demo_pil demo_world) =
     objs (snd (create_icon demo_pil
        (demo_world\<lparr>files := [''/app/build/icon.png'' \<mapsto> [1, 2, 3]]\<rparr>))) !
       fst (create_icon demo_pil
        (demo_world\<lparr>files := [''/app/build/icon.png'' \<mapsto> [1, 2, 3]]\<rparr>)) \<and>
   (\<exists>v1 v2. main demo_pil ''/app/build'' demo_world = Inr v1 \<and>
      main demo_pil ''/app/build''
        (demo_world\<lparr>files := [''/app/build/icon.png'' \<mapsto> [1, 2, 3]]\<rparr>) = Inr v2 \<and>
      (\<forall>p\<in>set (output_paths ''/app/build''). files v1 p = files v2 p))"
proof -
  have h1: "\<forall>p\<in>set (output_paths ''/app/build''). can_write demo_world p"
    by (simp add: demo_world_def)
  have h2: "\<forall>p\<in>set (output_paths ''/app/build'').
      can_write (demo_world\<lparr>files := [''/app/build/icon.png'' \<mapsto> [1, 2, 3]]\<rparr>) p"
    by (simp add: demo_world_def)
  show ?thesis
    unfolding list_all_iff using h1 h2 run_deterministic [OF h1 h2, of demo_pil] by blast
qed

text \<open>
  C9: the base raster is of mode \<^verbatim>\<open>RGBA\<close>; \<^verbatim>\<open>icon.png\<close> holds its encoding and each
  \<^verbatim>\<open>icon_SxS.png\<close> the encoding of its resized copy, which is of mode \<^verbatim>\<open>RGBA\<close> too.
  With a PNG codec that decodes the \<^verbatim>\<open>RGBA\<close> images of positive size it encoded
  (\<open>codec_rgba_ok\<close>), each of the eight files decodes to an \<^verbatim>\<open>RGBA\<close> image of the
  size written.
\<close>

theorem outputs_are_rgba_images:
  assumes "\<forall>p\<in>set (output_paths d). can_write w p"
    and "codec_rgba_ok L"
  shows "\<exists>w' base. main L d w = Inr w' \<and>
           base = objs w' ! length (objs w) \<and>
           mode base = ''RGBA'' \<and>
           files w' (os_path_join d ''icon.png'') = Some (png_encode L base) \<and>
           (\<exists>img. png_decode L (png_encode L base) = Some img \<and>
              mode img = ''RGBA'' \<and> width img = 1024 \<and> height img = 1024) \<and>
           (\<forall>S\<in>set sizes.
              files w' (os_path_join d (icon_filename S)) =
                Some (png_encode L (resized L base (S, S))) \<and>
              mode (resized L base (S, S)) = ''RGBA'' \<and>
              (\<exists>img. png_decode L (png_encode L (resized L base (S, S))) = Some img \<and>
                 mode img = ''RGBA'' \<and> width img = S \<and> height img = S))"
proof -
  from main_ok [OF assms(1), of L] obtain w' where
    w': "main L d w = Inr w'" and
    f: "files w' = files w ++ writes L d (badge L) (can_write w)" and
    o: "objs w' ! length (objs w) = badge L"
    by blast
  have dec: "\<exists>img. png_decode L (png_encode L r) = Some img \<and> mode img = ''RGBA'' \<and>
               width img = width r \<and> height img = height r"
    if "mode r = ''RGBA''" "0 < width r" "0 < height r" for r
    using assms(2) that unfolding codec_rgba_ok_def by blast
  have i: "files w' (os_path_join d ''icon.png'') = Some (png_encode L (badge L))"
    unfolding f using writes_icon_png [OF assms(1)] .
  have di: "\<exists>img. png_decode L (png_encode L (badge L)) = Some img \<and>
              mode img = ''RGBA'' \<and> width img = 1024 \<and> height img = 1024"
    using dec [of "badge L"] by (simp add: badge_fields)
  have r: "files w' (os_path_join d (icon_filename S)) =
             Some (png_encode L (resized L (badge L) (S, S))) \<and>
           mode (resized L (badge L) (S, S)) = ''RGBA'' \<and>
           (\<exists>img. png_decode L (png_encode L (resized L (badge L) (S, S))) = Some img \<and>
              mode img = ''RGBA'' \<and> width img = S \<and> height img = S)"
    if S: "S \<in> set sizes" for S
  proof -
    have "files w' (icon_path d S) = Some (png_encode L (resized L (badge L) (S, S)))"
      unfolding f using writes_sized [OF assms(1) S] .
    moreover have m: "mode (resized L (badge L) (S, S)) = ''RGBA''"
      by (simp add: resized_def badge_fields)
    moreover have "\<exists>img. png_decode L (png_encode L (resized L (badge L) (S, S))) = Some img \<and>
              mode img = ''RGBA'' \<and> width img = S \<and> height img = S"
      using dec [of "resized L (badge L) (S, S)"] m sizes_pos [OF S]
      by (simp add: resized_def)
    ultimately show ?thesis by (simp add: icon_path_def)
  qed
  show ?thesis
    using w' o i di r badge_fields(1) by (metis (no_types, lifting))
qed

theorem outputs_are_rgba_images_witness:
  "list_all (can_write demo_world) (output_paths ''/app/build'') \<and> codec_rgba_ok demo_pil \<and>
   (\<exists>w' base. main demo_pil ''/app/build'' demo_world = Inr w' \<and>
      base = objs w' ! length (objs demo_world) \<and>
      mode base = ''RGBA'' \<and>
      files w' (os_path_join ''/app/build'' ''icon.png'') = Some (png_encode demo_pil base) \<and>
      (\<exists>img. png_decode demo_pil (png_encode demo_pil base) = Some img \<and>
         mode img = ''RGBA'' \<and> width img = 1024 \<and> height img = 1024) \<and>
      (\<forall>S\<in>set sizes.
         files w' (os_path_join ''/app/build'' (icon_filename S)) =
           Some (png_encode demo_pil (resized demo_pil base (S, S))) \<and>
         mode (resized demo_pil base (S, S)) = ''RGBA'' \<and>
         (\<exists>img. png_decode demo_pil (png_encode demo_pil (resized demo_pil base (S, S))) = Some img \<and>
            mode img = ''RGBA'' \<and> width img = S \<and> height img = S)))"
proof -
  have h: "\<forall>p\<in>set (output_paths ''/app/build''). can_write demo_world p"
    by (simp add: demo_world_def)
  show ?thesis
    unfolding list_all_iff
    using h demo_codec_rgba_ok outputs_are_rgba_images [OF h demo_codec_rgba_ok] by blast
qed

text \<open>
  C10: the export is idempotent on the file system. Running \<^verbatim>\<open>save_icon_sizes\<close> a
  second time on the world the first run left behind gives the same files with the same
  contents, whether the writes succeed or one of them is refused.
\<close>

theorem export_idempotent:
  assumes "base_img < length (objs w)"
  shows "files (world_of (save_icon_sizes L d base_img
                  (world_of (save_icon_sizes L d base_img w)))) =
         files (world_of (save_icon_sizes L d base_img w))"
proof -
  let ?w1 = "world_of (save_icon_sizes L d base_img w)"
  let ?M = "writes L d (objs w ! base_img) (can_write w)"
  have f1: "files ?w1 = files w ++ ?M"
    and c1: "can_write ?w1 = can_write w"
    and t1: "take (length (objs w)) (objs ?w1) = objs w"
    using save_icon_sizes_world [OF assms, of L d] by blast+
  from take_nth_same [OF t1 assms]
  have b1: "base_img < length (objs ?w1)" and o1: "objs ?w1 ! base_img = objs w ! base_img"
    by blast+
  have "files (world_of (save_icon_sizes L d base_img ?w1)) = files ?w1 ++ ?M"
    using save_icon_sizes_world(1) [OF b1, of L d] unfolding o1 c1 .
  also have "\<dots> = files w ++ (?M ++ ?M)"
    unfolding f1 by (rule map_add_assoc [symmetric])
  also have "?M ++ ?M = ?M"
    by (rule ext) (simp add: map_add_def split: option.splits)
  finally show ?thesis unfolding f1 .
qed

theorem export_idempotent_witness:
  "0 < length (objs demo_world) \<and>
   files (world_of (save_icon_sizes demo_pil ''/app/build'' 0
           (world_of (save_icon_sizes demo_pil ''/app/build'' 0 demo_world)))) =
   files (world_of (save_icon_sizes demo_pil ''/app/build'' 0 demo_world))"
  using export_idempotent [of 0 demo_world demo_pil "''/app/build''"]
  by (simp add: demo_world_def)

section \<open>Position of the glyph\<close>

text \<open>
  C7 says that the box the glyph is drawn in is centred on the canvas centre for whatever
  box the font yields. The anchor is computed from the width and height of the box alone
  (lines 42 to 46); the left and top offsets of the box are not subtracted. For a font
  whose box for \<^verbatim>\<open>C\<close> at the origin is \<open>(26, 88, 286, 388)\<close> the text is anchored at
  \<open>(382, 362)\<close> and drawn in the box \<open>(408, 450, 668, 750)\<close>, whose centre
  \<open>(538, 600)\<close> is not the canvas centre \<open>(512, 512)\<close>.
\<close>

theorem glyph_box_displaced:
  "select_font demo_pil = (''arial.ttf'', 409) \<and>
   draw_textbbox demo_pil (0, 0) ''C'' (select_font demo_pil) = (26, 88, 286, 388) \<and>
   text_anchor (draw_textbbox demo_pil (0, 0) ''C'' (select_font demo_pil)) = (382, 362) \<and>
   draw_textbbox demo_pil
     (text_anchor (draw_textbbox demo_pil (0, 0) ''C'' (select_font demo_pil))) ''C''
     (select_font demo_pil) = (408, 450, 668, 750) \<and>
   box_centre2 (draw_textbbox demo_pil
     (text_anchor (draw_textbbox demo_pil (0, 0) ''C'' (select_font demo_pil))) ''C''
     (select_font demo_pil)) = (1076, 1200) \<and>
   (2 * center, 2 * center) = (1024, 1024)"
  by (simp add: select_font_def demo_pil_def draw_textbbox_def text_anchor_def
        box_centre2_def geometry_values Let_def)

end
